theory Spec2Isabelle
  imports Complex_Main "HOL-Library.AList" "HOL-Library.Char_ord" "HOL-Library.List_Lexorder"
begin

section \<open>Python values shared by the pipeline modules\<close>

text \<open>
  Exceptions are values. Only the exception classes that the modelled code can raise
  are listed.
\<close>

datatype py_error =
    ZeroDivisionError | KeyError | ValueError | TypeError | OSError | YAMLError
  | OtherException string

text \<open>
  Python's true division \<^verbatim>\<open>a / b\<close> on integers: it raises on a zero divisor and otherwise
  yields the quotient. The quotient is taken as an exact real number; the rounding and
  the finite range of a binary float are not part of this model.
\<close>

definition py_truediv :: "int \<Rightarrow> int \<Rightarrow> py_error + real" where
  "py_truediv a b = (if b = 0 then Inl ZeroDivisionError else Inr (real_of_int a / real_of_int b))"

section \<open>shutdown.py: the execution guard\<close>

text \<open>
  \<^verbatim>\<open>config['limits']\<close> supplies two numbers; they are integers here.
\<close>

record limits =
  cfg_daily_token_budget :: int
  cfg_execution_window_minutes :: int

record execution_guard =
  start_time :: "real option"
  tokens_used :: int
  daily_token_budget :: int
  execution_window_minutes :: int
  max_runtime_seconds :: int

text \<open>\<^verbatim>\<open>ExecutionGuard.__init__\<close>: no start time, no tokens, a five minute buffer.\<close>

definition init_guard :: "limits \<Rightarrow> execution_guard" where
  "init_guard cfg =
     \<lparr> start_time = None,
       tokens_used = 0,
       daily_token_budget = cfg_daily_token_budget cfg,
       execution_window_minutes = cfg_execution_window_minutes cfg,
       max_runtime_seconds = (cfg_execution_window_minutes cfg - 5) * 60 \<rparr>"

text \<open>
  Every reading of \<^verbatim>\<open>time.time()\<close> is an argument \<open>now\<close> of the method that reads it.
  Clock readings and their differences are exact real numbers.

  The source tests \<^verbatim>\<open>self.start_time\<close> for truth, not for \<^verbatim>\<open>None\<close>: an unset start time
  and a start time of \<^verbatim>\<open>0.0\<close> are both false. Each test is a case distinction on the
  option with a comparison to zero inside.
\<close>

definition start :: "execution_guard \<Rightarrow> real \<Rightarrow> execution_guard" where
  "start g now = g\<lparr>start_time := Some now\<rparr>"

definition check_time_remaining :: "execution_guard \<Rightarrow> real \<Rightarrow> real" where
  "check_time_remaining g now =
     (case start_time g of
        None \<Rightarrow> real_of_int (max_runtime_seconds g)
      | Some t0 \<Rightarrow>
          if t0 = 0 then real_of_int (max_runtime_seconds g)
          else (let elapsed = now - t0;
                    remaining = real_of_int (max_runtime_seconds g) - elapsed
                in remaining))"

definition should_continue :: "execution_guard \<Rightarrow> real \<Rightarrow> bool" where
  "should_continue g now =
     (let remaining_secs = check_time_remaining g now;
          remaining_tokens = daily_token_budget g - tokens_used g
      in if remaining_secs < 30 then False
         else if remaining_tokens < 1000 then False
         else True)"

text \<open>
  \<^verbatim>\<open>record_tokens\<close> adds to the counter first and divides afterwards, so the counter is
  updated also when the division raises. The result pairs what the call yields (the
  logged percentage, or the exception) with the guard after the call.
\<close>

definition record_tokens :: "execution_guard \<Rightarrow> int \<Rightarrow> (py_error + real) \<times> execution_guard" where
  "record_tokens g count =
     (let g' = g\<lparr>tokens_used := tokens_used g + count\<rparr>
      in case py_truediv (tokens_used g') (daily_token_budget g') of
           Inl e \<Rightarrow> (Inl e, g')
         | Inr q \<Rightarrow> (Inr (q * 100), g'))"

text \<open>
  The elapsed time as \<^verbatim>\<open>force_shutdown\<close> and \<^verbatim>\<open>get_status\<close> compute it:
  \<^verbatim>\<open>time.time() - self.start_time if self.start_time else 0\<close>.
\<close>

definition elapsed_seconds :: "execution_guard \<Rightarrow> real \<Rightarrow> real" where
  "elapsed_seconds g now =
     (case start_time g of
        None \<Rightarrow> 0
      | Some t0 \<Rightarrow> if t0 = 0 then 0 else now - t0)"

record shutdown_report =
  shutdown_reason :: string
  report_elapsed_seconds :: real
  report_tokens_used :: int
  report_timestamp :: string

definition force_shutdown :: "execution_guard \<Rightarrow> real \<Rightarrow> string \<Rightarrow> shutdown_report" where
  "force_shutdown g now stamp =
     \<lparr> shutdown_reason = ''execution_guard_exceeded'',
       report_elapsed_seconds = elapsed_seconds g now,
       report_tokens_used = tokens_used g,
       report_timestamp = stamp \<rparr>"



text \<open>
  A guard lives through a sequence of method calls. Only \<^verbatim>\<open>start\<close> and \<^verbatim>\<open>record_tokens\<close>
  assign to a field; the other four methods read the guard and leave it as it is.
\<close>

datatype guard_op =
    Start real
  | CheckTimeRemaining real
  | ShouldContinue real
  | RecordTokens int
  | ForceShutdown real string
  | GetStatus real real

fun apply_guard_op :: "execution_guard \<Rightarrow> guard_op \<Rightarrow> execution_guard" where
  "apply_guard_op g (Start now) = start g now"
| "apply_guard_op g (CheckTimeRemaining now) = g"
| "apply_guard_op g (ShouldContinue now) = g"
| "apply_guard_op g (RecordTokens count) = snd (record_tokens g count)"
| "apply_guard_op g (ForceShutdown now stamp) = g"
| "apply_guard_op g (GetStatus now1 now2) = g"

fun run_guard :: "execution_guard \<Rightarrow> guard_op list \<Rightarrow> execution_guard" where
  "run_guard g [] = g"
| "run_guard g (op # ops) = run_guard (apply_guard_op g op) ops"

fun is_start :: "guard_op \<Rightarrow> bool" where
  "is_start (Start now) = True"
| "is_start _ = False"


section \<open>Dictionaries\<close>

text \<open>
  A Python dictionary keeps its keys in insertion order, so it is an association list.
  \<^verbatim>\<open>d[k] = v\<close> is \<^const>\<open>AList.update\<close>: an existing key keeps its place, a new key goes
  to the end. \<^verbatim>\<open>k in d\<close> and \<^verbatim>\<open>d.get(k)\<close> are \<^const>\<open>map_of\<close>; \<^verbatim>\<open>d[k]\<close> raises on a missing
  key. A dictionary never holds a key twice.
\<close>

type_synonym ('k, 'v) py_dict = "('k \<times> 'v) list"

definition dict_ok :: "('k, 'v) py_dict \<Rightarrow> bool" where
  "dict_ok d = distinct (map fst d)"

definition dict_getitem :: "('k, 'v) py_dict \<Rightarrow> 'k \<Rightarrow> py_error + 'v" where
  "dict_getitem d k = (case map_of d k of None \<Rightarrow> Inl KeyError | Some v \<Rightarrow> Inr v)"

section \<open>market\_calendars.py: events and the calendar store\<close>

datatype market = FTSE | NASDAQ

fun market_value :: "market \<Rightarrow> string" where
  "market_value FTSE = ''ftse''"
| "market_value NASDAQ = ''nasdaq''"

datatype event_type = EARNINGS | DIVIDEND | SPLIT | IPO | CONFERENCE | ECONOMIC | MERGER

fun event_type_value :: "event_type \<Rightarrow> string" where
  "event_type_value EARNINGS = ''earnings''"
| "event_type_value DIVIDEND = ''dividend''"
| "event_type_value SPLIT = ''stock_split''"
| "event_type_value IPO = ''ipo''"
| "event_type_value CONFERENCE = ''conference''"
| "event_type_value ECONOMIC = ''economic_indicator''"
| "event_type_value MERGER = ''merger_acquisition''"



datatype py_scalar = PyNum real | PyStr string | PyBool bool

type_synonym metadata = "(string, py_scalar) py_dict"

record calendar_event =
  ticker :: string
  market :: market
  event_type :: event_type
  date :: string
  description :: string
  timestamp :: string
  metadata :: metadata

text \<open>
  \<^verbatim>\<open>CalendarEvent.__init__\<close>; \<open>now\<close> is the reading of \<^verbatim>\<open>datetime.now().isoformat()\<close>.
\<close>

definition new_calendar_event ::
  "string \<Rightarrow> market \<Rightarrow> event_type \<Rightarrow> string \<Rightarrow> string \<Rightarrow> string \<Rightarrow> metadata \<Rightarrow> calendar_event" where
  "new_calendar_event tk m ty d descr now kwargs =
     \<lparr> ticker = tk, market = m, event_type = ty, date = d, description = descr,
       timestamp = now, metadata = kwargs \<rparr>"




definition bind_result :: "py_error + 'a \<Rightarrow> ('a \<Rightarrow> py_error + 'b) \<Rightarrow> py_error + 'b" where
  "bind_result r f = (case r of Inl e \<Rightarrow> Inl e | Inr x \<Rightarrow> f x)"


record market_calendar =
  cal_market :: market
  events :: "(string, calendar_event list) py_dict"
  last_updated :: "string option"

subsection \<open>The durable files\<close>








subsection \<open>Adding events\<close>

definition add_event :: "market_calendar \<Rightarrow> calendar_event \<Rightarrow> py_error + market_calendar" where
  "add_event s event =
     (let evs = (if map_of (events s) (ticker event) = None
                 then AList.update (ticker event) [] (events s)
                 else events s)
      in bind_result (dict_getitem evs (ticker event)) (\<lambda>stored.
           let existing = filter (\<lambda>e. date e = date event \<and> event_type e = event_type event) stored
           in if existing = []
              then bind_result (dict_getitem evs (ticker event)) (\<lambda>lst.
                     Inr (s\<lparr>events := AList.update (ticker event) (lst @ [event]) evs\<rparr>))
              else Inr (s\<lparr>events := evs\<rparr>)))"

fun add_events_bulk :: "market_calendar \<Rightarrow> calendar_event list \<Rightarrow> py_error + market_calendar" where
  "add_events_bulk s [] = Inr s"
| "add_events_bulk s (event # rest) =
     bind_result (add_event s event) (\<lambda>s'. add_events_bulk s' rest)"

subsection \<open>Saving\<close>





subsection \<open>Queries\<close>

definition get_events_by_ticker :: "market_calendar \<Rightarrow> string \<Rightarrow> calendar_event list" where
  "get_events_by_ticker s tk = (case map_of (events s) tk of None \<Rightarrow> [] | Some es \<Rightarrow> es)"

text \<open>
  The two query loops share their shape: filter each ticker's list and store the
  outcome under the ticker unless it is empty.
\<close>

fun collect ::
  "(calendar_event \<Rightarrow> bool) \<Rightarrow> (string, calendar_event list) py_dict
    \<Rightarrow> (string, calendar_event list) py_dict \<Rightarrow> (string, calendar_event list) py_dict" where
  "collect keep [] result = result"
| "collect keep ((tk, es) # rest) result =
     (let filtered = filter keep es
      in if filtered \<noteq> [] then collect keep rest (AList.update tk filtered result)
         else collect keep rest result)"

text \<open>
  Dates are compared as strings: \<open>\<le>\<close> on \<^typ>\<open>string\<close> is the lexicographic order over
  the character codes, as Python's comparison of \<^verbatim>\<open>str\<close> is.
\<close>

definition get_events_by_date_range ::
  "market_calendar \<Rightarrow> string \<Rightarrow> string \<Rightarrow> (string, calendar_event list) py_dict" where
  "get_events_by_date_range s start_date end_date =
     collect (\<lambda>e. start_date \<le> date e \<and> date e \<le> end_date) (events s) []"

definition get_events_by_type ::
  "market_calendar \<Rightarrow> event_type \<Rightarrow> (string, calendar_event list) py_dict" where
  "get_events_by_type s ty = collect (\<lambda>e. event_type e = ty) (events s) []"

text \<open>\<open>today\<close> and \<open>future_date\<close> are the two formatted clock readings.\<close>

definition get_upcoming_events ::
  "market_calendar \<Rightarrow> string \<Rightarrow> string \<Rightarrow> (string, calendar_event list) py_dict" where
  "get_upcoming_events s today future_date = get_events_by_date_range s today future_date"

subsection \<open>Summary\<close>

text \<open>Python's \<^verbatim>\<open>min\<close> and \<^verbatim>\<open>max\<close> raise on an empty sequence.\<close>

definition py_min :: "string list \<Rightarrow> py_error + string" where
  "py_min xs = (case xs of [] \<Rightarrow> Inl ValueError | x # rest \<Rightarrow> Inr (fold (\<lambda>y m. if y < m then y else m) rest x))"

definition py_max :: "string list \<Rightarrow> py_error + string" where
  "py_max xs = (case xs of [] \<Rightarrow> Inl ValueError | x # rest \<Rightarrow> Inr (fold (\<lambda>y m. if m < y then y else m) rest x))"

definition count_event :: "(string, nat) py_dict \<Rightarrow> calendar_event \<Rightarrow> (string, nat) py_dict" where
  "count_event event_types event =
     AList.update (event_type_value (event_type event))
       ((case map_of event_types (event_type_value (event_type event)) of None \<Rightarrow> 0 | Some c \<Rightarrow> c) + 1)
       event_types"

record calendar_summary =
  summary_market :: string
  total_tickers :: nat
  total_events :: nat
  event_types :: "(string, nat) py_dict"
  date_range_first :: "string option"
  date_range_last :: "string option"
  summary_last_updated :: "string option"

definition get_summary :: "market_calendar \<Rightarrow> py_error + calendar_summary" where
  "get_summary s =
     (let all_events = concat (map snd (events s));
          histogram = foldl count_event [] all_events
      in bind_result (if all_events \<noteq> [] then map_sum id Some (py_min (map date all_events)) else Inr None) (\<lambda>first.
         bind_result (if all_events \<noteq> [] then map_sum id Some (py_max (map date all_events)) else Inr None) (\<lambda>last.
           Inr \<lparr> summary_market = market_value (cal_market s),
                 total_tickers = length (events s),
                 total_events = length all_events,
                 event_types = histogram,
                 date_range_first = first,
                 date_range_last = last,
                 summary_last_updated = last_updated s \<rparr>)))"

section \<open>data\_sources.py: the source orchestrator\<close>

text \<open>
  A source adapter is known by what its four methods yield: a value or an exception.
\<close>

record data_source =
  source_name :: string
  health_check :: "py_error + bool"
  fetch_earnings_calendar :: "market \<Rightarrow> int \<Rightarrow> py_error + calendar_event list"
  fetch_dividend_calendar :: "market \<Rightarrow> int \<Rightarrow> py_error + calendar_event list"
  fetch_economic_calendar :: "int \<Rightarrow> py_error + calendar_event list"

text \<open>
  The loop of \<^verbatim>\<open>fetch_all_calendars\<close>. Every exception inside the \<^verbatim>\<open>try\<close> ends the
  turn of the current source and leaves \<open>result\<close> as it is at that moment; the two
  assignments to \<open>result\<close> stand before the economic fetch.
\<close>

fun fetch_loop ::
  "data_source list \<Rightarrow> market \<Rightarrow> int \<Rightarrow> (string, calendar_event list) py_dict
    \<Rightarrow> (string, calendar_event list) py_dict" where
  "fetch_loop [] m days_ahead result = result"
| "fetch_loop (source # rest) m days_ahead result =
     (case health_check source of
        Inl e \<Rightarrow> fetch_loop rest m days_ahead result
      | Inr healthy \<Rightarrow>
          if healthy then
            (case fetch_earnings_calendar source m days_ahead of
               Inl e \<Rightarrow> fetch_loop rest m days_ahead result
             | Inr earnings \<Rightarrow>
                 (case fetch_dividend_calendar source m days_ahead of
                    Inl e \<Rightarrow> fetch_loop rest m days_ahead result
                  | Inr dividends \<Rightarrow>
                      (let result1 = AList.update ''dividends'' dividends
                                       (AList.update ''earnings'' earnings result)
                       in if map_of result1 ''economic'' = None
                          then (case fetch_economic_calendar source days_ahead of
                                  Inl e \<Rightarrow> fetch_loop rest m days_ahead result1
                                | Inr economic \<Rightarrow> AList.update ''economic'' economic result1)
                          else result1)))
          else fetch_loop rest m days_ahead result)"

definition fetch_all_calendars ::
  "data_source list \<Rightarrow> market \<Rightarrow> int \<Rightarrow> (string, calendar_event list) py_dict" where
  "fetch_all_calendars sources m days_ahead = fetch_loop sources m days_ahead []"

text \<open>\<^verbatim>\<open>populate_calendar\<close>: every fetched list, in the result's order, goes to the store.\<close>

definition populate_calendar ::
  "data_source list \<Rightarrow> market_calendar \<Rightarrow> int \<Rightarrow> py_error + market_calendar" where
  "populate_calendar sources calendar days_ahead =
     (let calendars = fetch_all_calendars sources (cal_market calendar) days_ahead;
          all_events = concat (map snd calendars)
      in add_events_bulk calendar all_events)"

section \<open>Notions used to state the properties\<close>

text \<open>The key under which the store tells events apart.\<close>

definition same_key :: "calendar_event \<Rightarrow> calendar_event \<Rightarrow> bool" where
  "same_key e1 e2 = (ticker e1 = ticker e2 \<and> date e1 = date e2 \<and> event_type e1 = event_type e2)"

text \<open>The stored events that carry the key of a given event.\<close>

definition stored_with_key :: "market_calendar \<Rightarrow> calendar_event \<Rightarrow> calendar_event list" where
  "stored_with_key s event =
     filter (\<lambda>e. date e = date event \<and> event_type e = event_type event)
       (get_events_by_ticker s (ticker event))"

text \<open>
  The invariant of the data model: the store is a dictionary, and within a ticker's
  list no two events share date and type.
\<close>

definition no_duplicates :: "market_calendar \<Rightarrow> bool" where
  "no_duplicates s =
     (dict_ok (events s)
      \<and> list_all (\<lambda>(tk, es). distinct (map (\<lambda>e. (date e, event_type e)) es)) (events s))"

text \<open>All stored events, in the order of \<^verbatim>\<open>get_summary\<close>'s first loop.\<close>

definition all_events_of :: "market_calendar \<Rightarrow> calendar_event list" where
  "all_events_of s = concat (map snd (events s))"








section \<open>Sample data\<close>

text \<open>
  Configurations, operation sequences, events (after the example at the end of
  \<^verbatim>\<open>market_calendars.py\<close>), data directories and sources on which the properties are
  evaluated.
\<close>

definition demo_limits :: limits where
  "demo_limits = \<lparr>cfg_daily_token_budget = 50000, cfg_execution_window_minutes = 10\<rparr>"


definition empty_calendar :: "market \<Rightarrow> market_calendar" where
  "empty_calendar m = \<lparr> cal_market = m, events = [], last_updated = None \<rparr>"

definition sample_event1 :: calendar_event where
  "sample_event1 =
     new_calendar_event ''AAPL'' NASDAQ EARNINGS ''2026-02-05'' ''Apple Q1 2026 Earnings''
       ''2026-01-28T09:00:00''
       [(''eps_estimate'', PyNum (215 / 100)), (''revenue_estimate'', PyNum 95000)]"

definition sample_event1_again :: calendar_event where
  "sample_event1_again =
     new_calendar_event ''AAPL'' NASDAQ EARNINGS ''2026-02-05'' ''Apple earnings (second source)''
       ''2026-01-28T09:00:01'' []"

definition sample_event2 :: calendar_event where
  "sample_event2 =
     new_calendar_event ''AAPL'' NASDAQ DIVIDEND ''2026-02-05'' ''Apple dividend''
       ''2026-01-28T09:00:02'' []"

definition sample_event3 :: calendar_event where
  "sample_event3 =
     new_calendar_event ''HSBA'' FTSE EARNINGS ''2026-02-10'' ''HSBC Holdings PLC Full Year Results 2025''
       ''2026-01-28T09:00:03'' [(''dividend_forecast'', PyNum (1 / 2))]"

definition sample_calendar :: market_calendar where
  "sample_calendar =
     \<lparr> cal_market = NASDAQ,
       events = [(''AAPL'', [sample_event1, sample_event2]), (''HSBA'', [sample_event3])],
       last_updated = None \<rparr>"

definition sample_ops :: "guard_op list" where
  "sample_ops = [Start 1000, RecordTokens 500]"

definition reading_ops :: "guard_op list" where
  "reading_ops =
     [RecordTokens 500, ShouldContinue 130, GetStatus 140 141, CheckTimeRemaining 150,
      ForceShutdown 160 ''2026-01-28T09:02:40'']"











section \<open>Properties of the execution guard\<close>

subsection \<open>Configuration and start time along a run\<close>

lemma apply_guard_op_config:
  "daily_token_budget (apply_guard_op g op) = daily_token_budget g \<and>
   execution_window_minutes (apply_guard_op g op) = execution_window_minutes g \<and>
   max_runtime_seconds (apply_guard_op g op) = max_runtime_seconds g"
  by (cases op) (simp_all add: start_def record_tokens_def Let_def split: sum.splits)

lemma run_guard_config:
  "daily_token_budget (run_guard g ops) = daily_token_budget g \<and>
   execution_window_minutes (run_guard g ops) = execution_window_minutes g \<and>
   max_runtime_seconds (run_guard g ops) = max_runtime_seconds g"
  by (induction ops arbitrary: g) (simp_all add: apply_guard_op_config)

lemma apply_guard_op_start_time:
  "\<not> is_start op \<Longrightarrow> start_time (apply_guard_op g op) = start_time g"
  by (cases op) (simp_all add: record_tokens_def Let_def split: sum.splits)

lemma run_guard_start_time:
  "\<not> list_ex is_start ops \<Longrightarrow> start_time (run_guard g ops) = start_time g"
  by (induction ops arbitrary: g) (simp_all add: apply_guard_op_start_time)

lemma run_guard_append: "run_guard g (xs @ ys) = run_guard (run_guard g xs) ys"
  by (induction xs arbitrary: g) simp_all

lemma check_time_remaining_elapsed:
  "check_time_remaining g now = real_of_int (max_runtime_seconds g) - elapsed_seconds g now"
  by (simp add: check_time_remaining_def elapsed_seconds_def Let_def split: option.splits)

lemma elapsed_seconds_started:
  "start_time g = Some t0 \<Longrightarrow> t0 \<noteq> 0 \<Longrightarrow> elapsed_seconds g now = now - t0"
  by (simp add: elapsed_seconds_def)

lemma should_continue_iff:
  "should_continue g now =
     (\<not> (check_time_remaining g now < 30 \<or> daily_token_budget g - tokens_used g < 1000))"
  by (simp add: should_continue_def Let_def)

lemma check_time_remaining_zero_origin:
  "check_time_remaining (start g 0) now = real_of_int (max_runtime_seconds g)"
  by (simp add: check_time_remaining_def start_def)

lemma sample_ops_guard:
  "start_time (run_guard (init_guard demo_limits) sample_ops) = Some 1000"
  "tokens_used (run_guard (init_guard demo_limits) sample_ops) = 500"
  "daily_token_budget (run_guard (init_guard demo_limits) sample_ops) = 50000"
  "max_runtime_seconds (run_guard (init_guard demo_limits) sample_ops) = 300"
  by (simp_all add: sample_ops_def demo_limits_def init_guard_def start_def record_tokens_def
      py_truediv_def Let_def)

subsection \<open>The continuation decision\<close>

text \<open>
  Claim C1. \<^verbatim>\<open>should_continue\<close> is false exactly when the remaining time is below 30
  seconds or the remaining tokens are below 1000. Hence it is false once
  \<open>tokens_used > daily_token_budget - 1000\<close>. For a guard configured with a window of
  10 minutes, at any point of its life: the maximal runtime is 300 seconds, the
  decision is false once the elapsed time exceeds 270 seconds, and it is true while the
  elapsed time is at most 270 seconds and at least 1000 tokens remain. The elapsed time
  is the one the guard itself reports, \<^const>\<open>elapsed_seconds\<close>.
\<close>

theorem should_continue_decision:
  "should_continue g now =
     (\<not> (check_time_remaining g now < 30 \<or> daily_token_budget g - tokens_used g < 1000))
   \<and> (daily_token_budget g - 1000 < tokens_used g \<longrightarrow> \<not> should_continue g now)
   \<and> (let g10 = run_guard (init_guard \<lparr>cfg_daily_token_budget = b, cfg_execution_window_minutes = 10\<rparr>) ops
      in max_runtime_seconds g10 = 300
       \<and> (270 < elapsed_seconds g10 now \<longrightarrow> \<not> should_continue g10 now)
       \<and> (elapsed_seconds g10 now \<le> 270 \<and> 1000 \<le> daily_token_budget g10 - tokens_used g10
            \<longrightarrow> should_continue g10 now))"
proof -
  let ?g = "run_guard (init_guard \<lparr>cfg_daily_token_budget = b, cfg_execution_window_minutes = 10\<rparr>) ops"
  have m: "max_runtime_seconds ?g = 300"
    by (simp add: run_guard_config init_guard_def)
  have a: "daily_token_budget g - 1000 < tokens_used g \<longrightarrow> \<not> should_continue g now"
    by (simp add: should_continue_iff)
  have b: "270 < elapsed_seconds ?g now \<longrightarrow> \<not> should_continue ?g now"
    using m by (simp add: should_continue_iff check_time_remaining_elapsed)
  have c: "elapsed_seconds ?g now \<le> 270 \<and> 1000 \<le> daily_token_budget ?g - tokens_used ?g
            \<longrightarrow> should_continue ?g now"
    using m by (simp add: should_continue_iff check_time_remaining_elapsed)
  show ?thesis
    unfolding Let_def using m a b c should_continue_iff by blast
qed

theorem should_continue_decision_witness:
  "daily_token_budget (snd (record_tokens (init_guard demo_limits) 49500)) - 1000
     < tokens_used (snd (record_tokens (init_guard demo_limits) 49500))
   \<and> \<not> should_continue (snd (record_tokens (init_guard demo_limits) 49500)) 0
   \<and> 270 < elapsed_seconds (run_guard (init_guard demo_limits) sample_ops) 1271
   \<and> \<not> should_continue (run_guard (init_guard demo_limits) sample_ops) 1271
   \<and> elapsed_seconds (run_guard (init_guard demo_limits) sample_ops) 1270 \<le> 270
   \<and> 1000 \<le> daily_token_budget (run_guard (init_guard demo_limits) sample_ops)
             - tokens_used (run_guard (init_guard demo_limits) sample_ops)
   \<and> should_continue (run_guard (init_guard demo_limits) sample_ops) 1270"
proof -
  let ?g1 = "snd (record_tokens (init_guard demo_limits) 49500)"
  let ?g2 = "run_guard (init_guard demo_limits) sample_ops"
  have h1: "daily_token_budget ?g1 - 1000 < tokens_used ?g1"
    by (simp add: record_tokens_def init_guard_def demo_limits_def py_truediv_def Let_def)
  have h2: "270 < elapsed_seconds ?g2 1271"
    by (simp add: elapsed_seconds_def sample_ops_guard)
  have h3: "elapsed_seconds ?g2 1270 \<le> 270"
    by (simp add: elapsed_seconds_def sample_ops_guard)
  have h4: "1000 \<le> daily_token_budget ?g2 - tokens_used ?g2"
    by (simp add: sample_ops_guard)
  from h1 should_continue_decision [of ?g1 0 50000 "[]"]
  have c1: "\<not> should_continue ?g1 0" by blast
  from h2 should_continue_decision [of ?g1 1271 50000 sample_ops]
  have c2: "\<not> should_continue ?g2 1271" unfolding Let_def demo_limits_def by blast
  from h3 h4 should_continue_decision [of ?g1 1270 50000 sample_ops]
  have c3: "should_continue ?g2 1270" unfolding Let_def demo_limits_def by blast
  from h1 h2 h3 h4 c1 c2 c3 show ?thesis by blast
qed

subsection \<open>The remaining time\<close>

text \<open>
  Claim C4. \<^verbatim>\<open>check_time_remaining\<close> returns \<open>max_runtime_seconds - elapsed\<close>, where
  \<open>max_runtime_seconds = (execution_window_minutes - 5) * 60\<close> throughout the life of
  the guard; for a guard started at a nonzero clock reading \<open>t0\<close> that is
  \<open>max_runtime_seconds - (now - t0)\<close>. The result is not clamped: past the deadline it
  is negative. As long as \<^verbatim>\<open>start\<close> has not been called it is the full
  \<open>max_runtime_seconds\<close>.
\<close>

theorem check_time_remaining_spec:
  "check_time_remaining g now = real_of_int (max_runtime_seconds g) - elapsed_seconds g now
   \<and> (start_time g = Some t0 \<and> t0 \<noteq> 0 \<longrightarrow>
        check_time_remaining g now = real_of_int (max_runtime_seconds g) - (now - t0))
   \<and> max_runtime_seconds (run_guard (init_guard cfg) ops) = (cfg_execution_window_minutes cfg - 5) * 60
   \<and> (start_time g = Some t0 \<and> t0 \<noteq> 0 \<and> real_of_int (max_runtime_seconds g) < now - t0 \<longrightarrow>
        check_time_remaining g now < 0)
   \<and> (\<not> list_ex is_start ops \<longrightarrow>
        check_time_remaining (run_guard (init_guard cfg) ops) now
          = real_of_int ((cfg_execution_window_minutes cfg - 5) * 60))"
proof -
  have a: "check_time_remaining g now = real_of_int (max_runtime_seconds g) - elapsed_seconds g now"
    by (rule check_time_remaining_elapsed)
  have m: "max_runtime_seconds (run_guard (init_guard cfg) ops) = (cfg_execution_window_minutes cfg - 5) * 60"
    by (simp add: run_guard_config init_guard_def)
  have b: "start_time g = Some t0 \<and> t0 \<noteq> 0 \<longrightarrow>
        check_time_remaining g now = real_of_int (max_runtime_seconds g) - (now - t0)"
    by (simp add: check_time_remaining_def)
  have c: "start_time g = Some t0 \<and> t0 \<noteq> 0 \<and> real_of_int (max_runtime_seconds g) < now - t0 \<longrightarrow>
        check_time_remaining g now < 0"
    by (simp add: check_time_remaining_def)
  have d: "\<not> list_ex is_start ops \<longrightarrow>
        check_time_remaining (run_guard (init_guard cfg) ops) now
          = real_of_int ((cfg_execution_window_minutes cfg - 5) * 60)"
  proof
    assume ns: "\<not> list_ex is_start ops"
    have "start_time (run_guard (init_guard cfg) ops) = None"
      using run_guard_start_time [OF ns, of "init_guard cfg"] by (simp add: init_guard_def)
    then show "check_time_remaining (run_guard (init_guard cfg) ops) now
          = real_of_int ((cfg_execution_window_minutes cfg - 5) * 60)"
      using m by (simp add: check_time_remaining_def)
  qed
  from a b m c d show ?thesis by blast
qed

theorem check_time_remaining_spec_witness:
  "start_time (run_guard (init_guard demo_limits) sample_ops) = Some 1000
   \<and> (1000 :: real) \<noteq> 0
   \<and> real_of_int (max_runtime_seconds (run_guard (init_guard demo_limits) sample_ops)) < 1400 - 1000
   \<and> check_time_remaining (run_guard (init_guard demo_limits) sample_ops) 1400 = - 100
   \<and> check_time_remaining (run_guard (init_guard demo_limits) sample_ops) 1400 < 0
   \<and> \<not> list_ex is_start [RecordTokens 500]
   \<and> check_time_remaining (run_guard (init_guard demo_limits) [RecordTokens 500]) 1400 = 300"
proof -
  let ?g = "run_guard (init_guard demo_limits) sample_ops"
  have st: "start_time ?g = Some 1000" and nz: "(1000 :: real) \<noteq> 0"
    by (simp_all add: sample_ops_guard)
  have over: "real_of_int (max_runtime_seconds ?g) < 1400 - 1000"
    by (simp add: sample_ops_guard)
  have ns: "\<not> list_ex is_start [RecordTokens 500]"
    by simp
  have w: "cfg_execution_window_minutes demo_limits = 10"
    by (simp add: demo_limits_def)
  from st nz check_time_remaining_spec [of ?g 1400 1000 demo_limits "[RecordTokens 500]"]
  have "check_time_remaining ?g 1400 = real_of_int (max_runtime_seconds ?g) - (1400 - 1000)"
    by blast
  then have v: "check_time_remaining ?g 1400 = - 100"
    by (simp add: sample_ops_guard)
  from st nz over check_time_remaining_spec [of ?g 1400 1000 demo_limits "[RecordTokens 500]"]
  have neg: "check_time_remaining ?g 1400 < 0"
    by blast
  from ns check_time_remaining_spec [of ?g 1400 1000 demo_limits "[RecordTokens 500]"]
  have "check_time_remaining (run_guard (init_guard demo_limits) [RecordTokens 500]) 1400
          = real_of_int ((cfg_execution_window_minutes demo_limits - 5) * 60)"
    by blast
  then have full: "check_time_remaining (run_guard (init_guard demo_limits) [RecordTokens 500]) 1400 = 300"
    by (simp add: w)
  from st nz over v neg ns full show ?thesis by blast
qed

subsection \<open>The start time\<close>

text \<open>
  Claim C5 says that the recorded start time never changes once \<^verbatim>\<open>start\<close> has been
  called, further \<^verbatim>\<open>start\<close> calls included. The method assigns the clock reading
  without looking at the field, so a second call replaces the first reading.
\<close>

theorem start_time_restart_counterexample:
  "start_time (start (init_guard demo_limits) 100) = Some 100
   \<and> start_time (run_guard (start (init_guard demo_limits) 100) [RecordTokens 500, Start 200]) = Some 200
   \<and> start_time (run_guard (start (init_guard demo_limits) 100) [RecordTokens 500, Start 200])
       \<noteq> start_time (start (init_guard demo_limits) 100)"
  by (simp add: start_def record_tokens_def Let_def split: sum.splits)

text \<open>
  Claim C5, amended. Only \<^verbatim>\<open>start\<close> changes the recorded start time: after
  \<^verbatim>\<open>start\<close> at reading \<open>t\<close>, every sequence of operations without a further
  \<^verbatim>\<open>start\<close> leaves it at \<open>t\<close>, and a further \<^verbatim>\<open>start\<close> at reading \<open>t'\<close> sets it
  to \<open>t'\<close>.
\<close>

theorem start_time_frame:
  "(\<not> list_ex is_start ops \<longrightarrow> start_time (run_guard (start g t) ops) = Some t)
   \<and> start_time (run_guard (start g t) (ops @ [Start t'])) = Some t'"
proof -
  have a: "\<not> list_ex is_start ops \<longrightarrow> start_time (run_guard (start g t) ops) = Some t"
  proof
    assume ns: "\<not> list_ex is_start ops"
    show "start_time (run_guard (start g t) ops) = Some t"
      using run_guard_start_time [OF ns, of "start g t"] by (simp add: start_def)
  qed
  have b: "start_time (run_guard (start g t) (ops @ [Start t'])) = Some t'"
    by (simp add: run_guard_append start_def)
  from a b show ?thesis by blast
qed

theorem start_time_frame_witness:
  "\<not> list_ex is_start reading_ops
   \<and> start_time (run_guard (start (init_guard demo_limits) 100) reading_ops) = Some 100"
proof -
  have ns: "\<not> list_ex is_start reading_ops"
    by (simp add: reading_ops_def)
  from ns start_time_frame [of reading_ops "init_guard demo_limits" 100]
  show ?thesis by blast
qed

subsection \<open>The token ratio\<close>



section \<open>Properties of the calendar store\<close>

subsection \<open>Adding events\<close>

text \<open>
  \<^verbatim>\<open>add_event\<close> in closed form: it never raises; it appends the event to its ticker's
  list when no stored event of that ticker has its date and type, and changes nothing
  otherwise.
\<close>

lemma add_event_eq:
  "add_event s e =
     Inr (if stored_with_key s e = []
          then s\<lparr>events := AList.update (ticker e) (get_events_by_ticker s (ticker e) @ [e]) (events s)\<rparr>
          else s)"
proof (cases "map_of (events s) (ticker e)")
  case None
  then show ?thesis
    by (simp add: add_event_def stored_with_key_def get_events_by_ticker_def dict_getitem_def
        bind_result_def update_conv' Let_def)
next
  case (Some l)
  then show ?thesis
    by (simp add: add_event_def stored_with_key_def get_events_by_ticker_def dict_getitem_def
        bind_result_def Let_def)
qed

lemma get_events_by_ticker_update:
  "get_events_by_ticker (s\<lparr>events := AList.update k v (events s)\<rparr>) k' =
     (if k' = k then v else get_events_by_ticker s k')"
  by (simp add: get_events_by_ticker_def update_conv')

lemma stored_with_key_cong:
  "same_key e1 e2 \<Longrightarrow> stored_with_key s e2 = stored_with_key s e1"
  by (simp add: same_key_def stored_with_key_def)

lemma stored_with_key_add_same:
  "stored_with_key s e = [] \<Longrightarrow>
   stored_with_key (s\<lparr>events := AList.update (ticker e) (get_events_by_ticker s (ticker e) @ [e]) (events s)\<rparr>) e = [e]"
  by (simp add: stored_with_key_def get_events_by_ticker_update)

lemma sample_tickers:
  "ticker sample_event1 = ''AAPL''" "ticker sample_event1_again = ''AAPL''"
  "ticker sample_event2 = ''AAPL''"
  by (simp_all add: sample_event1_def sample_event1_again_def sample_event2_def new_calendar_event_def)

lemma sample_add1:
  "add_event (empty_calendar NASDAQ) sample_event1
     = Inr \<lparr> cal_market = NASDAQ, events = [(''AAPL'', [sample_event1])], last_updated = None \<rparr>"
  by (simp add: add_event_eq stored_with_key_def get_events_by_ticker_def empty_calendar_def sample_tickers)

lemma sample_dates:
  "date sample_event1 = ''2026-02-05''" "date sample_event2 = ''2026-02-05''"
  "date sample_event3 = ''2026-02-10''"
  by (simp_all add: sample_event1_def sample_event2_def sample_event3_def new_calendar_event_def)

text \<open>
  The empty calendar satisfies the invariant, adding preserves it, and under it a key
  is stored at most once.
\<close>

lemma list_all_update:
  "list_all P al \<Longrightarrow> P (k, v) \<Longrightarrow> list_all P (AList.update k v al)"
  by (induction al) auto

lemma filter_key_distinct:
  "distinct (map f l) \<Longrightarrow> length (filter (\<lambda>x. f x = k) l) \<le> 1"
proof (induction l)
  case Nil
  then show ?case by simp
next
  case (Cons a l)
  show ?case
  proof (cases "f a = k")
    case True
    with Cons.prems have "filter (\<lambda>x. f x = k) l = []"
      by (auto simp add: filter_empty_conv image_iff)
    with True show ?thesis by simp
  next
    case False
    with Cons show ?thesis by simp
  qed
qed

lemma no_duplicates_ticker:
  "no_duplicates s \<Longrightarrow> distinct (map (\<lambda>e. (date e, event_type e)) (get_events_by_ticker s tk))"
proof (cases "map_of (events s) tk")
  case None
  then show ?thesis by (simp add: get_events_by_ticker_def)
next
  case (Some es)
  assume "no_duplicates s"
  moreover from Some have "(tk, es) \<in> set (events s)" by (rule map_of_SomeD)
  ultimately show ?thesis
    using Some by (auto simp add: no_duplicates_def get_events_by_ticker_def list_all_iff)
qed

lemma no_duplicates_stored:
  assumes "no_duplicates s"
  shows "length (stored_with_key s e) \<le> 1"
proof -
  have "length (filter (\<lambda>x. (date x, event_type x) = (date e, event_type e))
          (get_events_by_ticker s (ticker e))) \<le> 1"
    by (rule filter_key_distinct) (rule no_duplicates_ticker [OF assms])
  then show ?thesis
    by (simp add: stored_with_key_def)
qed

lemma no_duplicates_empty: "no_duplicates (empty_calendar m)"
  by (simp add: no_duplicates_def empty_calendar_def dict_ok_def)

lemma no_duplicates_add_event:
  assumes inv: "no_duplicates s" and add: "add_event s e = Inr s'"
  shows "no_duplicates s'"
proof (cases "stored_with_key s e = []")
  case False
  with add inv show ?thesis by (simp add: add_event_eq)
next
  case True
  let ?old = "get_events_by_ticker s (ticker e)"
  from True add have s': "s' = s\<lparr>events := AList.update (ticker e) (?old @ [e]) (events s)\<rparr>"
    by (simp add: add_event_eq)
  from True have fresh: "(date e, event_type e) \<notin> set (map (\<lambda>x. (date x, event_type x)) ?old)"
    by (auto simp add: stored_with_key_def filter_empty_conv)
  with no_duplicates_ticker [OF inv, of "ticker e"]
  have d: "distinct (map (\<lambda>x. (date x, event_type x)) (?old @ [e]))"
    by simp
  from inv have "dict_ok (AList.update (ticker e) (?old @ [e]) (events s))"
    by (simp add: no_duplicates_def dict_ok_def distinct_update)
  moreover from inv d
  have "list_all (\<lambda>(tk, es). distinct (map (\<lambda>e. (date e, event_type e)) es))
          (AList.update (ticker e) (?old @ [e]) (events s))"
    by (intro list_all_update) (simp_all add: no_duplicates_def)
  ultimately show ?thesis
    by (simp add: s' no_duplicates_def)
qed

lemma no_duplicates_add_events_bulk:
  "no_duplicates s \<Longrightarrow> add_events_bulk s es = Inr s' \<Longrightarrow> no_duplicates s'"
proof (induction es arbitrary: s)
  case Nil
  then show ?case by simp
next
  case (Cons e es)
  obtain s1 where s1: "add_event s e = Inr s1"
    by (simp add: add_event_eq)
  with Cons.prems(2) have "add_events_bulk s1 es = Inr s'"
    by (simp add: bind_result_def)
  with Cons.IH no_duplicates_add_event [OF Cons.prems(1) s1] show ?case
    by blast
qed

text \<open>
  Claim C2. Adding never raises. For two events with equal ticker, date and type,
  added one after the other or in one bulk call: the second insert changes nothing, and
  the stored events with that key are the first event alone when none was stored
  before, and the ones stored before otherwise; so a calendar that satisfies the
  invariant \<^const>\<open>no_duplicates\<close>, as every calendar built from the empty one by adding
  does, satisfies it afterwards and holds exactly one event with that key. Two events
  that differ in ticker, date or type, neither of whose keys is stored yet, are both
  kept.
\<close>

theorem add_event_first_write_wins:
  "(\<exists>s1. add_event s e1 = Inr s1)
   \<and> (same_key e1 e2 \<and> add_event s e1 = Inr s1 \<longrightarrow>
        add_event s1 e2 = Inr s1
      \<and> add_events_bulk s [e1, e2] = Inr s1
      \<and> stored_with_key s1 e1 = (if stored_with_key s e1 = [] then [e1] else stored_with_key s e1)
      \<and> (stored_with_key s e1 \<noteq> [] \<longrightarrow> s1 = s)
      \<and> (no_duplicates s \<longrightarrow> no_duplicates s1 \<and> length (stored_with_key s1 e1) = 1))
   \<and> (\<not> same_key e1 e2 \<and> stored_with_key s e1 = [] \<and> stored_with_key s e2 = [] \<longrightarrow>
        (\<exists>s1 s2. add_event s e1 = Inr s1 \<and> add_event s1 e2 = Inr s2
           \<and> add_events_bulk s [e1, e2] = Inr s2
           \<and> e1 \<in> set (get_events_by_ticker s2 (ticker e1))
           \<and> e2 \<in> set (get_events_by_ticker s2 (ticker e2))))"
proof -
  have total: "\<exists>s1. add_event s e1 = Inr s1"
    by (simp add: add_event_eq)
  have dup: "same_key e1 e2 \<and> add_event s e1 = Inr s1 \<longrightarrow>
        add_event s1 e2 = Inr s1
      \<and> add_events_bulk s [e1, e2] = Inr s1
      \<and> stored_with_key s1 e1 = (if stored_with_key s e1 = [] then [e1] else stored_with_key s e1)
      \<and> (stored_with_key s e1 \<noteq> [] \<longrightarrow> s1 = s)
      \<and> (no_duplicates s \<longrightarrow> no_duplicates s1 \<and> length (stored_with_key s1 e1) = 1)"
  proof
    assume h: "same_key e1 e2 \<and> add_event s e1 = Inr s1"
    then have sk: "same_key e1 e2" and a1: "add_event s e1 = Inr s1" by simp_all
    have after: "stored_with_key s1 e1 = (if stored_with_key s e1 = [] then [e1] else stored_with_key s e1)"
      using a1 by (auto simp: add_event_eq stored_with_key_add_same split: if_splits)
    then have ne: "stored_with_key s1 e2 \<noteq> []"
      using stored_with_key_cong [OF sk, of s1] by (simp split: if_splits)
    then have a2: "add_event s1 e2 = Inr s1"
      by (simp add: add_event_eq)
    have bulk: "add_events_bulk s [e1, e2] = Inr s1"
      using a1 a2 by (simp add: bind_result_def)
    have keep: "stored_with_key s e1 \<noteq> [] \<longrightarrow> s1 = s"
      using a1 by (auto simp: add_event_eq split: if_splits)
    have one: "no_duplicates s \<longrightarrow> no_duplicates s1 \<and> length (stored_with_key s1 e1) = 1"
    proof
      assume inv: "no_duplicates s"
      from no_duplicates_stored [OF inv, of e1] after
      have "length (stored_with_key s1 e1) = 1"
        by (cases "stored_with_key s e1") auto
      with no_duplicates_add_event [OF inv a1]
      show "no_duplicates s1 \<and> length (stored_with_key s1 e1) = 1"
        by simp
    qed
    from a2 bulk after keep one show "add_event s1 e2 = Inr s1
      \<and> add_events_bulk s [e1, e2] = Inr s1
      \<and> stored_with_key s1 e1 = (if stored_with_key s e1 = [] then [e1] else stored_with_key s e1)
      \<and> (stored_with_key s e1 \<noteq> [] \<longrightarrow> s1 = s)
      \<and> (no_duplicates s \<longrightarrow> no_duplicates s1 \<and> length (stored_with_key s1 e1) = 1)"
      by blast
  qed
  have both: "\<not> same_key e1 e2 \<and> stored_with_key s e1 = [] \<and> stored_with_key s e2 = [] \<longrightarrow>
        (\<exists>s1 s2. add_event s e1 = Inr s1 \<and> add_event s1 e2 = Inr s2
           \<and> add_events_bulk s [e1, e2] = Inr s2
           \<and> e1 \<in> set (get_events_by_ticker s2 (ticker e1))
           \<and> e2 \<in> set (get_events_by_ticker s2 (ticker e2)))"
  proof
    assume h: "\<not> same_key e1 e2 \<and> stored_with_key s e1 = [] \<and> stored_with_key s e2 = []"
    let ?s1 = "s\<lparr>events := AList.update (ticker e1) (get_events_by_ticker s (ticker e1) @ [e1]) (events s)\<rparr>"
    let ?s2 = "?s1\<lparr>events := AList.update (ticker e2) (get_events_by_ticker ?s1 (ticker e2) @ [e2]) (events ?s1)\<rparr>"
    have a1: "add_event s e1 = Inr ?s1"
      using h by (simp add: add_event_eq)
    have k2: "stored_with_key ?s1 e2 = []"
      using h by (auto simp: stored_with_key_def get_events_by_ticker_update same_key_def)
    then have a2: "add_event ?s1 e2 = Inr ?s2"
      by (simp add: add_event_eq)
    have bulk: "add_events_bulk s [e1, e2] = Inr ?s2"
      using a1 a2 by (simp add: bind_result_def)
    have m1: "e1 \<in> set (get_events_by_ticker ?s2 (ticker e1))"
      by (simp add: get_events_by_ticker_def update_conv')
    have m2: "e2 \<in> set (get_events_by_ticker ?s2 (ticker e2))"
      by (simp add: get_events_by_ticker_def update_conv')
    from a1 a2 bulk m1 m2 show "\<exists>s1 s2. add_event s e1 = Inr s1 \<and> add_event s1 e2 = Inr s2
           \<and> add_events_bulk s [e1, e2] = Inr s2
           \<and> e1 \<in> set (get_events_by_ticker s2 (ticker e1))
           \<and> e2 \<in> set (get_events_by_ticker s2 (ticker e2))"
      by blast
  qed
  from total dup both show ?thesis by blast
qed

theorem add_event_first_write_wins_witness:
  "same_key sample_event1 sample_event1_again
   \<and> sample_event1 \<noteq> sample_event1_again
   \<and> add_events_bulk (empty_calendar NASDAQ) [sample_event1, sample_event1_again]
       = Inr \<lparr> cal_market = NASDAQ, events = [(''AAPL'', [sample_event1])], last_updated = None \<rparr>
   \<and> no_duplicates (empty_calendar NASDAQ)
   \<and> length (stored_with_key
         \<lparr> cal_market = NASDAQ, events = [(''AAPL'', [sample_event1])], last_updated = None \<rparr>
         sample_event1) = 1
   \<and> \<not> same_key sample_event1 sample_event2
   \<and> stored_with_key (empty_calendar NASDAQ) sample_event1 = []
   \<and> stored_with_key (empty_calendar NASDAQ) sample_event2 = []
   \<and> (\<exists>s2. add_events_bulk (empty_calendar NASDAQ) [sample_event1, sample_event2] = Inr s2
         \<and> sample_event1 \<in> set (get_events_by_ticker s2 ''AAPL'')
         \<and> sample_event2 \<in> set (get_events_by_ticker s2 ''AAPL''))"
proof -
  let ?s1 = "\<lparr> cal_market = NASDAQ, events = [(''AAPL'', [sample_event1])], last_updated = None \<rparr>"
  have k: "same_key sample_event1 sample_event1_again"
    by (simp add: same_key_def sample_event1_def sample_event1_again_def new_calendar_event_def)
  have d: "sample_event1 \<noteq> sample_event1_again"
    by (simp add: sample_event1_def sample_event1_again_def new_calendar_event_def)
  have nk: "\<not> same_key sample_event1 sample_event2"
    by (simp add: same_key_def sample_event1_def sample_event2_def new_calendar_event_def)
  have e1: "stored_with_key (empty_calendar NASDAQ) sample_event1 = []"
    by (simp add: stored_with_key_def get_events_by_ticker_def empty_calendar_def)
  have e2: "stored_with_key (empty_calendar NASDAQ) sample_event2 = []"
    by (simp add: stored_with_key_def get_events_by_ticker_def empty_calendar_def)
  have t1: "ticker sample_event1 = ''AAPL''" and t2: "ticker sample_event2 = ''AAPL''"
    by (simp_all add: sample_event1_def sample_event2_def new_calendar_event_def)
  from k sample_add1
    add_event_first_write_wins [of "empty_calendar NASDAQ" sample_event1 sample_event1_again ?s1]
  have bulk: "add_events_bulk (empty_calendar NASDAQ) [sample_event1, sample_event1_again] = Inr ?s1"
    by blast
  from k sample_add1 no_duplicates_empty [of NASDAQ]
    add_event_first_write_wins [of "empty_calendar NASDAQ" sample_event1 sample_event1_again ?s1]
  have once: "length (stored_with_key ?s1 sample_event1) = 1"
    by blast
  from nk e1 e2
    add_event_first_write_wins [of "empty_calendar NASDAQ" sample_event1 sample_event2]
  have "\<exists>s2. add_events_bulk (empty_calendar NASDAQ) [sample_event1, sample_event2] = Inr s2
         \<and> sample_event1 \<in> set (get_events_by_ticker s2 (ticker sample_event1))
         \<and> sample_event2 \<in> set (get_events_by_ticker s2 (ticker sample_event2))"
    by blast
  then have both: "\<exists>s2. add_events_bulk (empty_calendar NASDAQ) [sample_event1, sample_event2] = Inr s2
         \<and> sample_event1 \<in> set (get_events_by_ticker s2 ''AAPL'')
         \<and> sample_event2 \<in> set (get_events_by_ticker s2 ''AAPL'')"
    unfolding t1 t2 .
  from k d bulk no_duplicates_empty [of NASDAQ] once nk e1 e2 both show ?thesis by blast
qed

subsection \<open>The date range query\<close>

lemma map_of_collect:
  "distinct (map fst d) \<Longrightarrow>
   map_of (collect keep d acc) t =
     (case map_of d t of
        None \<Rightarrow> map_of acc t
      | Some es \<Rightarrow> if filter keep es = [] then map_of acc t else Some (filter keep es))"
proof (induction d arbitrary: acc)
  case Nil
  then show ?case by simp
next
  case (Cons p d)
  obtain tk es where p: "p = (tk, es)" by (cases p)
  from Cons.prems p have fresh: "map_of d tk = None" and dist: "distinct (map fst d)"
    by (simp_all add: map_of_eq_None_iff)
  show ?case
  proof (cases "filter keep es = []")
    case True
    with p fresh show ?thesis
      using Cons.IH [OF dist, of acc]
      by (simp split: option.splits)
  next
    case False
    with p fresh show ?thesis
      using Cons.IH [OF dist, of "AList.update tk (filter keep es) acc"]
      by (auto simp add: Let_def update_conv' split: option.splits)
  qed
qed

lemma string_le_lexicographic:
  "((x::string) \<le> y) = (x = y \<or> (x, y) \<in> lexord {(c, d). (of_char c :: nat) < of_char d})"
  by (auto simp add: list_le_def list_less_def less_char_def)

text \<open>
  Claim C6. \<^verbatim>\<open>get_events_by_date_range\<close> keeps, per ticker, the events whose date
  string lies between the two bounds in the lexicographic order of the character codes,
  both bounds included. An event dated exactly at a bound of a range with
  \<open>start_date \<le> end_date\<close> is in the result. A ticker is a key of the result exactly
  when one of its events lies in the range.
\<close>

theorem date_range_inclusive:
  assumes "dict_ok (events s)"
  shows "map_of (get_events_by_date_range s start_date end_date) tk =
           (if filter (\<lambda>e. start_date \<le> date e \<and> date e \<le> end_date) (get_events_by_ticker s tk) = []
            then None
            else Some (filter (\<lambda>e. start_date \<le> date e \<and> date e \<le> end_date) (get_events_by_ticker s tk)))
       \<and> (tk \<in> fst ` set (get_events_by_date_range s start_date end_date)) =
           (\<exists>e \<in> set (get_events_by_ticker s tk). start_date \<le> date e \<and> date e \<le> end_date)
       \<and> (e \<in> set (get_events_by_ticker s tk) \<and> start_date \<le> end_date
            \<and> (date e = start_date \<or> date e = end_date) \<longrightarrow>
            (\<exists>es. map_of (get_events_by_date_range s start_date end_date) tk = Some es \<and> e \<in> set es))
       \<and> (start_date \<le> date e \<and> date e \<le> end_date) =
           ((start_date = date e \<or> (start_date, date e) \<in> lexord {(c, d). (of_char c :: nat) < of_char d})
            \<and> (date e = end_date \<or> (date e, end_date) \<in> lexord {(c, d). (of_char c :: nat) < of_char d}))"
proof -
  let ?keep = "\<lambda>e. start_date \<le> date e \<and> date e \<le> end_date"
  let ?res = "get_events_by_date_range s start_date end_date"
  from assms have dist: "distinct (map fst (events s))" by (simp add: dict_ok_def)
  have look: "map_of ?res tk =
           (if filter ?keep (get_events_by_ticker s tk) = [] then None
            else Some (filter ?keep (get_events_by_ticker s tk)))"
    using map_of_collect [OF dist, of ?keep "[]" tk]
    by (simp add: get_events_by_date_range_def get_events_by_ticker_def split: option.splits)
  have "(tk \<in> fst ` set ?res) = (map_of ?res tk \<noteq> None)"
    by (simp add: map_of_eq_None_iff)
  also have "\<dots> = (filter ?keep (get_events_by_ticker s tk) \<noteq> [])"
    by (simp add: look)
  also have "\<dots> = (\<exists>e \<in> set (get_events_by_ticker s tk). ?keep e)"
    by (simp add: filter_empty_conv)
  finally have keys: "(tk \<in> fst ` set ?res) = (\<exists>e \<in> set (get_events_by_ticker s tk). ?keep e)" .
  have bounds: "e \<in> set (get_events_by_ticker s tk) \<and> start_date \<le> end_date
            \<and> (date e = start_date \<or> date e = end_date) \<longrightarrow>
            (\<exists>es. map_of ?res tk = Some es \<and> e \<in> set es)"
  proof
    assume h: "e \<in> set (get_events_by_ticker s tk) \<and> start_date \<le> end_date
            \<and> (date e = start_date \<or> date e = end_date)"
    then have "?keep e" by auto
    with h have "e \<in> set (filter ?keep (get_events_by_ticker s tk))" by simp
    moreover from this have "filter ?keep (get_events_by_ticker s tk) \<noteq> []"
      by (metis empty_iff list.set(1))
    ultimately show "\<exists>es. map_of ?res tk = Some es \<and> e \<in> set es"
      by (simp add: look)
  qed
  have lex: "?keep e =
           ((start_date = date e \<or> (start_date, date e) \<in> lexord {(c, d). (of_char c :: nat) < of_char d})
            \<and> (date e = end_date \<or> (date e, end_date) \<in> lexord {(c, d). (of_char c :: nat) < of_char d}))"
    by (simp add: string_le_lexicographic)
  from look keys bounds lex show ?thesis by blast
qed

theorem date_range_inclusive_witness:
  "dict_ok (events sample_calendar)
   \<and> sample_event3 \<in> set (get_events_by_ticker sample_calendar ''HSBA'')
   \<and> (''2026-02-05'' :: string) \<le> ''2026-02-10''
   \<and> date sample_event3 = ''2026-02-10''
   \<and> (\<exists>es. map_of (get_events_by_date_range sample_calendar ''2026-02-05'' ''2026-02-10'') ''HSBA'' = Some es
          \<and> sample_event3 \<in> set es)"
proof -
  have ok: "dict_ok (events sample_calendar)"
    by (simp add: dict_ok_def sample_calendar_def)
  have mem: "sample_event3 \<in> set (get_events_by_ticker sample_calendar ''HSBA'')"
    by (simp add: get_events_by_ticker_def sample_calendar_def)
  have le: "(''2026-02-05'' :: string) \<le> ''2026-02-10''"
    by (simp add: less_eq_char_def less_char_def)
  have d: "date sample_event3 = ''2026-02-10''"
    by (rule sample_dates)
  from mem le d
    date_range_inclusive [OF ok, of "''2026-02-05''" "''2026-02-10''" "''HSBA''" sample_event3]
  have "\<exists>es. map_of (get_events_by_date_range sample_calendar ''2026-02-05'' ''2026-02-10'') ''HSBA'' = Some es
          \<and> sample_event3 \<in> set es"
    by blast
  with ok mem le d show ?thesis by blast
qed

subsection \<open>The summary\<close>

lemma sum_count_step:
  "sum_list (map snd (AList.update k ((case map_of h k of None \<Rightarrow> 0 | Some c \<Rightarrow> c) + 1) h))
     = sum_list (map snd h) + (1::nat)"
  by (induction h) auto

lemma sum_count_event:
  "sum_list (map snd (count_event h e)) = sum_list (map snd h) + 1"
  unfolding count_event_def by (rule sum_count_step)

lemma sum_histogram:
  "sum_list (map snd (foldl count_event h es)) = sum_list (map snd h) + length es"
  by (induction es arbitrary: h) (simp_all add: sum_count_event)

lemma length_all_events:
  "length (concat (map snd d)) = sum_list (map (\<lambda>(tk, es). length es) d)"
  by (induction d) auto

lemma fold_keep_smaller:
  "fold (\<lambda>y m. if y < m then y else m) rest (x::string) = Min (set (x # rest))"
proof -
  have "(\<lambda>(y::string) m. if y < m then y else m) = min"
    by (auto simp add: fun_eq_iff min_def)
  then show ?thesis
    by (simp only: Min.set_eq_fold)
qed

lemma fold_keep_larger:
  "fold (\<lambda>y m. if m < y then y else m) rest (x::string) = Max (set (x # rest))"
proof -
  have "(\<lambda>(y::string) m. if m < y then y else m) = max"
    by (auto simp add: fun_eq_iff max_def)
  then show ?thesis
    by (simp only: Max.set_eq_fold)
qed

lemma py_min_Min: "xs \<noteq> [] \<Longrightarrow> py_min xs = Inr (Min (set xs))"
  by (cases xs) (simp_all add: py_min_def fold_keep_smaller del: set_simps)

lemma py_max_Max: "xs \<noteq> [] \<Longrightarrow> py_max xs = Inr (Max (set xs))"
  by (cases xs) (simp_all add: py_max_def fold_keep_larger del: set_simps)

lemma sample_types:
  "event_type sample_event1 = EARNINGS" "event_type sample_event2 = DIVIDEND"
  "event_type sample_event3 = EARNINGS"
  by (simp_all add: sample_event1_def sample_event2_def sample_event3_def new_calendar_event_def)

text \<open>
  Claim C7. \<^verbatim>\<open>get_summary\<close> always returns a record. In it the counts of the
  histogram add up to \<open>total_events\<close>, which is the sum of the lengths of the tickers'
  lists; \<open>total_tickers\<close> is the number of ticker keys; the first and last date are the
  least and the greatest date among all events, and both are \<open>None\<close> when there is no
  event.
\<close>

theorem get_summary_consistent:
  "\<exists>r. get_summary s = Inr r
     \<and> sum_list (map snd (event_types r)) = total_events r
     \<and> total_events r = sum_list (map (\<lambda>(tk, es). length es) (events s))
     \<and> total_tickers r = length (map fst (events s))
     \<and> (dict_ok (events s) \<longrightarrow> total_tickers r = card (fst ` set (events s)))
     \<and> date_range_first r =
          (if all_events_of s = [] then None else Some (Min (date ` set (all_events_of s))))
     \<and> date_range_last r =
          (if all_events_of s = [] then None else Some (Max (date ` set (all_events_of s))))"
proof (cases "all_events_of s = []")
  case True
  have card: "dict_ok (events s) \<longrightarrow> length (events s) = card (fst ` set (events s))"
    by (metis dict_ok_def distinct_card length_map set_map)
  from True card show ?thesis
    by (simp add: get_summary_def all_events_of_def bind_result_def Let_def
        length_all_events [symmetric] del: concat_eq_Nil_conv)
next
  case False
  then have ne: "map date (concat (map snd (events s))) \<noteq> []"
    by (simp add: all_events_of_def)
  have card: "dict_ok (events s) \<longrightarrow> length (events s) = card (fst ` set (events s))"
    by (metis dict_ok_def distinct_card length_map set_map)
  from False card show ?thesis
    by (simp add: get_summary_def all_events_of_def bind_result_def Let_def
        py_min_Min [OF ne] py_max_Max [OF ne] sum_histogram length_all_events
        del: concat_eq_Nil_conv)
qed

theorem get_summary_consistent_witness:
  "dict_ok (events sample_calendar)
   \<and> get_summary sample_calendar =
       Inr \<lparr> summary_market = ''nasdaq'', total_tickers = 2, total_events = 3,
             event_types = [(''earnings'', 2), (''dividend'', 1)],
             date_range_first = Some ''2026-02-05'', date_range_last = Some ''2026-02-10'',
             summary_last_updated = None \<rparr>
   \<and> card (fst ` set (events sample_calendar)) = 2"
proof -
  have ok: "dict_ok (events sample_calendar)"
    by (simp add: dict_ok_def sample_calendar_def)
  have val: "get_summary sample_calendar =
       Inr \<lparr> summary_market = ''nasdaq'', total_tickers = 2, total_events = 3,
             event_types = [(''earnings'', 2), (''dividend'', 1)],
             date_range_first = Some ''2026-02-05'', date_range_last = Some ''2026-02-10'',
             summary_last_updated = None \<rparr>"
    by (simp add: get_summary_def sample_calendar_def bind_result_def Let_def py_min_def py_max_def
        count_event_def sample_dates sample_types less_char_def)
  from get_summary_consistent [of sample_calendar] ok obtain r where
    r: "get_summary sample_calendar = Inr r" "total_tickers r = card (fst ` set (events sample_calendar))"
    by blast
  from r(1) val have "total_tickers r = 2"
    by auto
  with r(2) have "card (fst ` set (events sample_calendar)) = 2"
    by simp
  with ok val show ?thesis by blast
qed

subsection \<open>Saving and raising\<close>





subsection \<open>Loading on construction\<close>


















section \<open>Properties of the source orchestrator\<close>












end
